theory Spec2Isabelle
  imports Main
begin

section \<open>JavaScript values\<close>

text \<open>
  The values that reach \<^verbatim>\<open>ChatRenderer\<close> (src/static/js/chat.js): primitives, dates,
  arrays and plain objects. Numbers are the integers among JavaScript's numbers
  (no \<^verbatim>\<open>NaN\<close>, no fractions); a date is its time value in milliseconds; an object is
  the list of its own properties. A well-formed object has pairwise different
  property names; the first binding of a name is the one that is read. The order of
  the list is the order of insertion (JavaScript moves integer-like names to the
  front, which no function of this file observes).
\<close>

datatype jsval =
    JUndefined
  | JNull
  | JBool bool
  | JNum int
  | JStr string
  | JDate nat
  | JArr "jsval list"
  | JObj "(string \<times> jsval) list"

type_synonym jsobj = "(string \<times> jsval) list"

datatype error = TypeError

text \<open>Truthiness, as tested by \<^verbatim>\<open>!v\<close>, \<^verbatim>\<open>a || b\<close> and \<^verbatim>\<open>a && b\<close>.\<close>

fun truthy :: "jsval \<Rightarrow> bool" where
  "truthy JUndefined = False"
| "truthy JNull = False"
| "truthy (JBool b) = b"
| "truthy (JNum n) = (n \<noteq> 0)"
| "truthy (JStr s) = (s \<noteq> [])"
| "truthy (JDate t) = True"
| "truthy (JArr xs) = True"
| "truthy (JObj ob) = True"

definition js_or :: "jsval \<Rightarrow> jsval \<Rightarrow> jsval" where
  "js_or a b = (if truthy a then a else b)"

definition has_prop :: "jsobj \<Rightarrow> string \<Rightarrow> bool" where
  "has_prop ob k = (k \<in> set (map fst ob))"

definition get :: "jsobj \<Rightarrow> string \<Rightarrow> jsval" where
  "get ob k = (case map_of ob k of None \<Rightarrow> JUndefined | Some v \<Rightarrow> v)"

text \<open>\<^verbatim>\<open>ob[k] = v\<close>: an existing property keeps its place, a new one goes last.\<close>

primrec set_prop :: "string \<Rightarrow> jsval \<Rightarrow> jsobj \<Rightarrow> jsobj" where
  "set_prop k v [] = [(k, v)]"
| "set_prop k v (p # ps) = (if fst p = k then (k, v) # ps else p # set_prop k v ps)"

text \<open>\<^verbatim>\<open>{...base, ...src}\<close> continued from \<open>base\<close>: every own property of \<open>src\<close> is copied.\<close>

definition spread :: "jsobj \<Rightarrow> jsobj \<Rightarrow> jsobj" where
  "spread base src = fold (\<lambda>k acc. set_prop k (get src k) acc) (map fst src) base"

definition digit_char :: "nat \<Rightarrow> char" where
  "digit_char d = ''0123456789'' ! (d mod 10)"

fun show_nat :: "nat \<Rightarrow> string" where
  "show_nat n = (if n < 10 then [digit_char n] else show_nat (n div 10) @ [digit_char (n mod 10)])"

declare show_nat.simps [simp del]

definition show_int :: "int \<Rightarrow> string" where
  "show_int i = (if i < 0 then CHR ''-'' # show_nat (nat (- i)) else show_nat (nat i))"

definition indexed :: "jsval list \<Rightarrow> jsobj" where
  "indexed xs = zip (map show_nat [0 ..< length xs]) xs"

text \<open>The own enumerable properties that a spread \<^verbatim>\<open>...v\<close> copies.\<close>

fun own_props :: "jsval \<Rightarrow> jsobj" where
  "own_props (JObj ob) = ob"
| "own_props (JArr xs) = indexed xs"
| "own_props (JStr s) = indexed (map (\<lambda>c. JStr [c]) s)"
| "own_props v = []"

text \<open>
  The property read \<^verbatim>\<open>v.k\<close>, for the names the source reads (\<^verbatim>\<open>text\<close>, \<^verbatim>\<open>id\<close>,
  \<^verbatim>\<open>length\<close>, none of them inherited from a prototype other than \<^verbatim>\<open>length\<close>).
\<close>

fun read_prop :: "jsval \<Rightarrow> string \<Rightarrow> error + jsval" where
  "read_prop JUndefined k = Inl TypeError"
| "read_prop JNull k = Inl TypeError"
| "read_prop (JObj ob) k = Inr (get ob k)"
| "read_prop (JStr s) k = Inr (if k = ''length'' then JNum (int (length s)) else JUndefined)"
| "read_prop (JArr xs) k = Inr (if k = ''length'' then JNum (int (length xs)) else JUndefined)"
| "read_prop v k = Inr JUndefined"

text \<open>
  \<^verbatim>\<open>a === b\<close>. Two operands of object type are equal only as the same object; values
  carry no identity, so that case is left undecided (\<open>None\<close>).
\<close>

fun is_object :: "jsval \<Rightarrow> bool" where
  "is_object (JDate t) = True"
| "is_object (JArr xs) = True"
| "is_object (JObj ob) = True"
| "is_object v = False"

definition strict_eq :: "jsval \<Rightarrow> jsval \<Rightarrow> bool option" where
  "strict_eq a b = (if is_object a \<and> is_object b then None else Some (a = b))"

text \<open>\<^verbatim>\<open>v > 0\<close>; the conversion of a string (or of an array, through its string) to a
  number is not modelled (\<open>None\<close>).\<close>

fun gt_zero :: "jsval \<Rightarrow> bool option" where
  "gt_zero JUndefined = Some False"
| "gt_zero JNull = Some False"
| "gt_zero (JBool b) = Some b"
| "gt_zero (JNum n) = Some (0 < n)"
| "gt_zero (JDate t) = Some (0 < t)"
| "gt_zero (JObj ob) = Some False"
| "gt_zero (JStr s) = None"
| "gt_zero (JArr xs) = None"

text \<open>
  What a call reads from its surroundings: the clock (\<^verbatim>\<open>Date.now()\<close>, \<^verbatim>\<open>new Date()\<close>
  and the base of \<^verbatim>\<open>setTimeout\<close>, taken as one reading per call) and the host's
  rendering of a date as a string, which depends on the time zone.
\<close>

record env =
  now :: nat
  date_string :: "nat \<Rightarrow> string"

fun join_comma :: "string list \<Rightarrow> string" where
  "join_comma [] = []"
| "join_comma [s] = s"
| "join_comma (s # t # ss) = s @ '','' @ join_comma (t # ss)"

text \<open>
  What a string conversion gives: the string, a \<^verbatim>\<open>TypeError\<close> (\<open>Throws\<close>), or a
  string that this file does not compute (\<open>Unmodelled\<close>).
\<close>

datatype conversion = Converted string | Throws | Unmodelled

fun first_failure :: "conversion list \<Rightarrow> conversion option" where
  "first_failure [] = None"
| "first_failure (Converted s # cs) = first_failure cs"
| "first_failure (c # cs) = Some c"

fun converted_text :: "conversion \<Rightarrow> string" where
  "converted_text (Converted s) = s"
| "converted_text c = []"

definition join_conversions :: "conversion list \<Rightarrow> conversion" where
  "join_conversions cs =
     (case first_failure cs of
        Some c \<Rightarrow> c
      | None \<Rightarrow> Converted (join_comma (map converted_text cs)))"

text \<open>
  String conversion (\<^verbatim>\<open>ToString\<close>), as done by a template literal and by
  \<^verbatim>\<open>setAttribute\<close>. A number prints as its decimal digits up to
  \<^verbatim>\<open>Number.MAX_SAFE_INTEGER\<close>; beyond it the digits are those of the nearest double,
  in exponent form from \<open>10\<^sup>2\<^sup>1\<close> on, which is not computed here. An array joins
  the conversions of its elements, the first failing one making it fail. A plain
  object with no \<^verbatim>\<open>toString\<close> of its own prints through \<^verbatim>\<open>Object.prototype\<close>; an own
  \<^verbatim>\<open>toString\<close> is a value that cannot be called (there are no functions among the
  values), after which \<^verbatim>\<open>valueOf\<close> gives no primitive either and the conversion
  throws.
\<close>

fun to_string :: "(nat \<Rightarrow> string) \<Rightarrow> jsval \<Rightarrow> conversion" where
  "to_string ds JUndefined = Converted ''undefined''"
| "to_string ds JNull = Converted ''null''"
| "to_string ds (JBool b) = Converted (if b then ''true'' else ''false'')"
| "to_string ds (JNum n) =
     (if \<bar>n\<bar> \<le> 9007199254740991 then Converted (show_int n) else Unmodelled)"
| "to_string ds (JStr s) = Converted s"
| "to_string ds (JDate t) = Converted (ds t)"
| "to_string ds (JArr xs) =
     join_conversions
       (map (\<lambda>x. if x = JUndefined \<or> x = JNull then Converted [] else to_string ds x) xs)"
| "to_string ds (JObj ob) =
     (if has_prop ob ''toString'' then Throws else Converted ''[object Object]'')"

text \<open>
  The conversion of a value assigned to \<^verbatim>\<open>textContent\<close>, a nullable string:
  \<^verbatim>\<open>null\<close> and \<^verbatim>\<open>undefined\<close> give the empty text.
\<close>

definition text_of :: "(nat \<Rightarrow> string) \<Rightarrow> jsval \<Rightarrow> conversion" where
  "text_of ds v = (if v = JUndefined \<or> v = JNull then Converted [] else to_string ds v)"

text \<open>
  A string that stands for itself between the double quotes of a CSS attribute
  selector: no quote, backslash, line break or NUL.
\<close>

definition css_plain :: "string \<Rightarrow> bool" where
  "css_plain s = list_all (\<lambda>c. (of_char c :: nat) \<notin> {0, 10, 12, 13, 34, 92}) s"


section \<open>The page: DOM nodes, timers, console, events\<close>

text \<open>
  The children of the container are the nodes the renderer itself appends: message
  items (\<^verbatim>\<open>renderMessage\<close>) and the typing indicator (\<^verbatim>\<open>showTyping\<close>). A node keeps
  what depends on data: the strings that attributes and text hold (the conversions of
  the values assigned), the side a bubble is on, the avatar, the suggestion buttons
  with the arguments their click handler passes to \<^verbatim>\<open>handleSuggestionClick\<close>. Class names that are constants, inline styles, the animation
  callbacks (\<^verbatim>\<open>requestAnimationFrame\<close>, and the timers that only set a style) and the
  scroll position are left out. A message item carries the identity of its element
  (\<open>node_id\<close>), since a timer can hold on to an element.
\<close>

datatype avatar = AvatarImage string | AvatarInitial string

record suggestion_button =
  btn_text :: string
  data_suggestion :: string
  data_suggestion_id :: string
  on_click :: "jsval \<times> jsval"

record suggestions_box =
  box_message_id :: string
  buttons :: "suggestion_button list"

record message_element =
  node_id :: nat
  data_message_id :: string
  user_side :: bool
  avatar_of :: "avatar option"
  text_content :: string
  suggestions_of :: "suggestions_box option"

datatype node = MessageItem message_element | TypingIndicator

text \<open>
  How a call ends. \<open>OutsideModel\<close>: the call reached an evaluation that this file does
  not model (see \<open>strict_eq\<close>, \<open>gt_zero\<close>, \<open>to_string\<close>, \<open>css_plain\<close>); the state
  returned with it holds the effects up to that point.
\<close>

datatype outcome = Returned | Threw error | OutsideModel

text \<open>A conversion inside a call: its string, or how the call ends.\<close>

fun converted :: "conversion \<Rightarrow> outcome + string" where
  "converted (Converted s) = Inr s"
| "converted Throws = Inl (Threw TypeError)"
| "converted Unmodelled = Inl OutsideModel"

datatype task = TAddMessage jsval | TRemoveSuggestions nat

datatype log =
    ContainerNotFound jsval
  | InvalidMessage
  | MessagesMustBeArray
  | MessageNotFound jsval

record event =
  ev_suggestion :: jsval
  ev_messageId :: jsval
  ev_text :: jsval

text \<open>
  The renderer's fields (\<open>container\<close>: the children of the container element,
  \<open>None\<close> when the constructor found no element; \<open>messages\<close>; \<open>isTyping\<close>) and the
  part of the page it acts on: the pending \<^verbatim>\<open>setTimeout\<close> callbacks with their due
  times, the calls of \<^verbatim>\<open>console.error\<close>, the \<^verbatim>\<open>suggestionClick\<close> events dispatched
  on the document, and the next fresh element identity.
\<close>

record state =
  container :: "node list option"
  messages :: "jsobj list"
  isTyping :: bool
  timers :: "(nat \<times> task) list"
  console :: "log list"
  events :: "event list"
  next_node :: nat

datatype lookup = Found nat | Missing | Unknown

section \<open>ChatRenderer\<close>

text \<open>
  \<^verbatim>\<open>new ChatRenderer(containerId)\<close>; \<open>found\<close> says whether \<^verbatim>\<open>document.getElementById\<close>
  returned an element, which is taken to have no children. (For a \<open>containerId\<close>
  that has no string conversion the constructor throws and there is no renderer.)
\<close>

definition ChatRenderer :: "jsval \<Rightarrow> bool \<Rightarrow> state" where
  "ChatRenderer containerId found =
     \<lparr> container = (if found then Some [] else None),
       messages = [],
       isTyping = False,
       timers = [],
       console = (if found then [] else [ContainerNotFound containerId]),
       events = [],
       next_node = 0 \<rparr>"

definition getUserAvatar :: jsval where
  "getUserAvatar = JNull"

definition getUserInitial :: jsval where
  "getUserInitial = JStr ''U''"

text \<open>
  The callback of \<^verbatim>\<open>suggestions.forEach\<close> in \<^verbatim>\<open>renderSuggestions\<close>, from index \<open>i\<close>
  on. For each suggestion, in the order of the source: \<^verbatim>\<open>suggestion.text\<close> is read
  (a \<^verbatim>\<open>TypeError\<close> on \<^verbatim>\<open>null\<close> and \<^verbatim>\<open>undefined\<close>), the label is assigned to
  \<^verbatim>\<open>textContent\<close> and to the attribute \<^verbatim>\<open>data-suggestion\<close>, then
  \<^verbatim>\<open>suggestion.id || index\<close> to \<^verbatim>\<open>data-suggestion-id\<close>.
\<close>

fun suggestion_buttons ::
  "(nat \<Rightarrow> string) \<Rightarrow> nat \<Rightarrow> jsval list \<Rightarrow> jsval \<Rightarrow> outcome + suggestion_button list" where
  "suggestion_buttons ds i [] messageId = Inr []"
| "suggestion_buttons ds i (s # ss) messageId =
     (case read_prop s ''text'' of
        Inl err \<Rightarrow> Inl (Threw err)
      | Inr t \<Rightarrow>
          (case converted (text_of ds (js_or t s)) of
             Inl out \<Rightarrow> Inl out
           | Inr label \<Rightarrow>
               (case converted (to_string ds (js_or t s)) of
                  Inl out \<Rightarrow> Inl out
                | Inr attr \<Rightarrow>
                    (case read_prop s ''id'' of
                       Inl err \<Rightarrow> Inl (Threw err)
                     | Inr sid \<Rightarrow>
                         (case converted (to_string ds (js_or sid (JNum (int i)))) of
                            Inl out \<Rightarrow> Inl out
                          | Inr sid_attr \<Rightarrow>
                              (case suggestion_buttons ds (Suc i) ss messageId of
                                 Inl out \<Rightarrow> Inl out
                               | Inr bs \<Rightarrow>
                                   Inr (\<lparr> btn_text = label,
                                          data_suggestion = attr,
                                          data_suggestion_id = sid_attr,
                                          on_click = (s, messageId) \<rparr> # bs)))))))"

text \<open>
  \<^verbatim>\<open>renderSuggestions\<close>: the box gets its attribute, then \<^verbatim>\<open>forEach\<close> is called. Only
  an array has \<^verbatim>\<open>forEach\<close>; on a string or a plain object the call throws.
\<close>

definition renderSuggestions ::
  "(nat \<Rightarrow> string) \<Rightarrow> jsval \<Rightarrow> jsval \<Rightarrow> outcome + suggestions_box" where
  "renderSuggestions ds suggestions messageId =
     (case converted (to_string ds messageId) of
        Inl out \<Rightarrow> Inl out
      | Inr box_id \<Rightarrow>
          (case suggestions of
             JArr xs \<Rightarrow>
               (case suggestion_buttons ds 0 xs messageId of
                  Inl out \<Rightarrow> Inl out
                | Inr bs \<Rightarrow> Inr \<lparr> box_message_id = box_id, buttons = bs \<rparr>)
           | _ \<Rightarrow> Inl (Threw TypeError)))"

text \<open>
  The suggestions part of \<^verbatim>\<open>renderMessage\<close>:
  \<^verbatim>\<open>message.sender === 'ai' && message.suggestions && message.suggestions.length > 0\<close>.
  \<open>Inl\<close> is how the rendering ends early.
\<close>

definition message_suggestions ::
  "(nat \<Rightarrow> string) \<Rightarrow> jsobj \<Rightarrow> outcome + suggestions_box option" where
  "message_suggestions ds message =
     (if get message ''sender'' = JStr ''ai'' \<and> truthy (get message ''suggestions'') then
        (case read_prop (get message ''suggestions'') ''length'' of
           Inl err \<Rightarrow> Inl (Threw err)
         | Inr len \<Rightarrow>
             (case gt_zero len of
                None \<Rightarrow> Inl OutsideModel
              | Some False \<Rightarrow> Inr None
              | Some True \<Rightarrow>
                  (case renderSuggestions ds (get message ''suggestions'') (get message ''id'') of
                     Inl out \<Rightarrow> Inl out
                   | Inr box \<Rightarrow> Inr (Some box))))
      else Inr None)"

text \<open>
  The avatar part of \<^verbatim>\<open>renderMessage\<close>, for a user message: \<^verbatim>\<open>img.src\<close> gets the
  avatar, or \<^verbatim>\<open>textContent\<close> gets \<^verbatim>\<open>message.userInitial || 'U'\<close>.
\<close>

definition message_avatar :: "(nat \<Rightarrow> string) \<Rightarrow> jsobj \<Rightarrow> outcome + avatar option" where
  "message_avatar ds message =
     (if get message ''sender'' = JStr ''user'' then
        (if truthy (get message ''userAvatar'') then
           (case converted (to_string ds (get message ''userAvatar'')) of
              Inl out \<Rightarrow> Inl out
            | Inr src \<Rightarrow> Inr (Some (AvatarImage src)))
         else
           (case converted (text_of ds (js_or (get message ''userInitial'') (JStr ''U''))) of
              Inl out \<Rightarrow> Inl out
            | Inr initial \<Rightarrow> Inr (Some (AvatarInitial initial))))
      else Inr None)"

text \<open>
  \<^verbatim>\<open>renderMessage\<close>, in the order of the source: the attribute \<^verbatim>\<open>data-message-id\<close>,
  the avatar, the text, the suggestions, and then \<^verbatim>\<open>this.container.appendChild\<close>.
  Each assignment converts its value to a string and throws when there is none;
  nothing is appended then.
\<close>

definition renderMessage :: "env \<Rightarrow> jsobj \<Rightarrow> state \<Rightarrow> state \<times> outcome" where
  "renderMessage e message w =
     (case converted (to_string (date_string e) (get message ''id'')) of
        Inl out \<Rightarrow> (w, out)
      | Inr id_attr \<Rightarrow>
          (case message_avatar (date_string e) message of
             Inl out \<Rightarrow> (w, out)
           | Inr av \<Rightarrow>
               (case converted (text_of (date_string e) (get message ''text'')) of
                  Inl out \<Rightarrow> (w, out)
                | Inr txt \<Rightarrow>
                    (case message_suggestions (date_string e) message of
                       Inl out \<Rightarrow> (w, out)
                     | Inr box \<Rightarrow>
                         (case container w of
                            None \<Rightarrow> (w, Threw TypeError)
                          | Some kids \<Rightarrow>
                              (w \<lparr> container :=
                                     Some (kids @ [MessageItem
                                       \<lparr> node_id = next_node w,
                                         data_message_id = id_attr,
                                         user_side = (get message ''sender'' = JStr ''user''),
                                         avatar_of = av,
                                         text_content = txt,
                                         suggestions_of = box \<rparr>]),
                                   next_node := Suc (next_node w) \<rparr>,
                               Returned))))))"

text \<open>The record that \<^verbatim>\<open>addMessage\<close> pushes: four defaults, then \<^verbatim>\<open>...message\<close>.\<close>

definition message_record :: "env \<Rightarrow> jsobj \<Rightarrow> jsobj" where
  "message_record e message =
     spread
       [(''id'', js_or (get message ''id'') (JStr (show_nat (now e)))),
        (''text'', get message ''text''),
        (''sender'', js_or (get message ''sender'') (JStr ''user'')),
        (''timestamp'', js_or (get message ''timestamp'') (JDate (now e)))]
       message"

text \<open>The guard of \<^verbatim>\<open>addMessage\<close> as written: \<^verbatim>\<open>!message || !message.text\<close>.\<close>

definition rejects :: "jsval \<Rightarrow> bool" where
  "rejects message =
     (\<not> truthy message \<or>
      (case read_prop message ''text'' of Inl err \<Rightarrow> True | Inr t \<Rightarrow> \<not> truthy t))"

text \<open>The arguments that pass it: plain objects with a truthy \<^verbatim>\<open>text\<close>.\<close>

fun valid_message :: "jsval \<Rightarrow> bool" where
  "valid_message (JObj ob) = truthy (get ob ''text'')"
| "valid_message v = False"

definition invalid_message :: "state \<Rightarrow> state \<times> outcome" where
  "invalid_message w = (w \<lparr> console := console w @ [InvalidMessage] \<rparr>, Returned)"

text \<open>
  \<^verbatim>\<open>if (!message || !message.text)\<close>: a value that is not a plain object is falsy or
  has no \<^verbatim>\<open>text\<close> property.
\<close>

definition addMessage :: "env \<Rightarrow> jsval \<Rightarrow> state \<Rightarrow> state \<times> outcome" where
  "addMessage e message w =
     (case message of
        JObj ob \<Rightarrow>
          (if truthy (get ob ''text'') then
             renderMessage e (message_record e ob)
               (w \<lparr> messages := messages w @ [message_record e ob] \<rparr>)
           else invalid_message w)
      | _ \<Rightarrow> invalid_message w)"

definition showTyping :: "state \<Rightarrow> state \<times> outcome" where
  "showTyping w =
     (if isTyping w then (w, Returned)
      else
        (case container w of
           None \<Rightarrow> (w \<lparr> isTyping := True \<rparr>, Threw TypeError)
         | Some kids \<Rightarrow>
             (w \<lparr> isTyping := True, container := Some (kids @ [TypingIndicator]) \<rparr>, Returned)))"

text \<open>
  \<^verbatim>\<open>document.getElementById('typing-indicator')\<close> finds the first such element of the
  document; the container is taken to be in the document, and the page to have no
  other element of that id.
\<close>

definition hideTyping :: "state \<Rightarrow> state \<times> outcome" where
  "hideTyping w =
     (w \<lparr> container := map_option (remove1 TypingIndicator) (container w),
          isTyping := False \<rparr>, Returned)"

definition clearMessages :: "state \<Rightarrow> state \<times> outcome" where
  "clearMessages w =
     (case container w of
        None \<Rightarrow> (w, Threw TypeError)
      | Some kids \<Rightarrow> (w \<lparr> container := Some [], messages := [] \<rparr>, Returned))"

definition loadMessages :: "env \<Rightarrow> jsval \<Rightarrow> state \<Rightarrow> state \<times> outcome" where
  "loadMessages e msgs w =
     (case msgs of
        JArr xs \<Rightarrow>
          (case clearMessages w of
             (w1, Returned) \<Rightarrow>
               (w1 \<lparr> timers := timers w1 @
                        map (\<lambda>(index, message). (now e + index * 100, TAddMessage message))
                          (enumerate 0 xs) \<rparr>,
                Returned)
           | (w1, out) \<Rightarrow> (w1, out))
      | _ \<Rightarrow> (w \<lparr> console := console w @ [MessagesMustBeArray] \<rparr>, Returned))"

definition getMessages :: "state \<Rightarrow> jsobj list" where
  "getMessages w = messages w"

text \<open>\<^verbatim>\<open>this.messages.findIndex(msg => msg.id === messageId)\<close>.\<close>

fun findIndex :: "jsval \<Rightarrow> jsobj list \<Rightarrow> lookup" where
  "findIndex messageId [] = Missing"
| "findIndex messageId (msg # rest) =
     (case strict_eq (get msg ''id'') messageId of
        None \<Rightarrow> Unknown
      | Some True \<Rightarrow> Found 0
      | Some False \<Rightarrow>
          (case findIndex messageId rest of Found i \<Rightarrow> Found (Suc i) | r \<Rightarrow> r))"

text \<open>
  The selector text \<^verbatim>\<open>`[data-message-id="${messageId}"]`\<close>: the template converts
  \<^verbatim>\<open>messageId\<close> to a string. For a string that is not \<open>css_plain\<close> the selector is
  another one (or none), which is not modelled.
\<close>

definition selector :: "env \<Rightarrow> jsval \<Rightarrow> outcome + string" where
  "selector e messageId =
     (case converted (to_string (date_string e) messageId) of
        Inl out \<Rightarrow> Inl out
      | Inr s \<Rightarrow> (if css_plain s then Inr s else Inl OutsideModel))"

text \<open>
  \<^verbatim>\<open>this.container.querySelector\<close> with that selector. The first element in document
  order with the attribute value is a child of the container: a suggestions box has
  the attribute value of the message item it is in.
\<close>

fun querySelector :: "string \<Rightarrow> node list \<Rightarrow> nat option" where
  "querySelector s [] = None"
| "querySelector s (MessageItem el # rest) =
     (if data_message_id el = s then Some 0 else map_option Suc (querySelector s rest))"
| "querySelector s (TypingIndicator # rest) = map_option Suc (querySelector s rest)"

definition remove_at :: "nat \<Rightarrow> 'a list \<Rightarrow> 'a list" where
  "remove_at j xs = take j xs @ drop (Suc j) xs"

text \<open>\<^verbatim>\<open>{ ...this.messages[messageIndex], ...updates }\<close>.\<close>

definition merged :: "jsobj \<Rightarrow> jsval \<Rightarrow> jsobj" where
  "merged old updates = spread (spread [] old) (own_props updates)"

text \<open>
  \<^verbatim>\<open>updateMessage\<close>. The message of \<^verbatim>\<open>console.error\<close> is a template with \<^verbatim>\<open>messageId\<close>
  in it, which throws when \<^verbatim>\<open>messageId\<close> has no string conversion. With the index
  found, the list is updated first; then \<^verbatim>\<open>this.container.querySelector\<close> is read
  (a \<^verbatim>\<open>TypeError\<close> without a container), then the selector text is built.
\<close>

definition updateMessage :: "env \<Rightarrow> jsval \<Rightarrow> jsval \<Rightarrow> state \<Rightarrow> state \<times> outcome" where
  "updateMessage e messageId updates w =
     (case findIndex messageId (messages w) of
        Unknown \<Rightarrow> (w, OutsideModel)
      | Missing \<Rightarrow>
          (case to_string (date_string e) messageId of
             Throws \<Rightarrow> (w, Threw TypeError)
           | _ \<Rightarrow> (w \<lparr> console := console w @ [MessageNotFound messageId] \<rparr>, Returned))
      | Found i \<Rightarrow>
          (let w1 = w \<lparr> messages := (messages w)[i := merged (messages w ! i) updates] \<rparr>
           in case container w1 of
                None \<Rightarrow> (w1, Threw TypeError)
              | Some kids \<Rightarrow>
                  (case selector e messageId of
                     Inl out \<Rightarrow> (w1, out)
                   | Inr s \<Rightarrow>
                       (case querySelector s kids of
                          None \<Rightarrow> renderMessage e (messages w1 ! i) w1
                        | Some j \<Rightarrow>
                            renderMessage e (messages w1 ! i)
                              (w1 \<lparr> container := Some (remove_at j kids) \<rparr>)))))"

text \<open>
  \<^verbatim>\<open>hideSuggestions\<close>: of its timers, the one that removes the suggestions box from its
  message item is kept.
\<close>

definition hideSuggestions :: "env \<Rightarrow> jsval \<Rightarrow> state \<Rightarrow> state \<times> outcome" where
  "hideSuggestions e messageId w =
     (case container w of
        None \<Rightarrow> (w, Threw TypeError)
      | Some kids \<Rightarrow>
          (case selector e messageId of
             Inl out \<Rightarrow> (w, out)
           | Inr s \<Rightarrow>
               (case querySelector s kids of
                  None \<Rightarrow> (w, Returned)
                | Some j \<Rightarrow>
                    (case kids ! j of
                       MessageItem el \<Rightarrow>
                         (case suggestions_of el of
                            None \<Rightarrow> (w, Returned)
                          | Some box \<Rightarrow>
                              (w \<lparr> timers := timers w @
                                     [(now e + (length (buttons box) * 50 + 300),
                                       TRemoveSuggestions (node_id el))] \<rparr>,
                               Returned))
                     | TypingIndicator \<Rightarrow> (w, Returned)))))"

text \<open>The object that \<^verbatim>\<open>handleSuggestionClick\<close> passes to \<^verbatim>\<open>addMessage\<close>.\<close>

definition click_message :: "env \<Rightarrow> jsval \<Rightarrow> jsobj" where
  "click_message e suggestionText =
     [(''id'', JStr (show_nat (now e))),
      (''text'', suggestionText),
      (''sender'', JStr ''user''),
      (''timestamp'', JDate (now e)),
      (''userAvatar'', getUserAvatar),
      (''userInitial'', getUserInitial)]"

text \<open>\<^verbatim>\<open>typeof suggestion === 'string' ? suggestion : suggestion.text\<close>.\<close>

definition suggestion_text :: "jsval \<Rightarrow> error + jsval" where
  "suggestion_text suggestion =
     (case suggestion of JStr s \<Rightarrow> Inr suggestion | _ \<Rightarrow> read_prop suggestion ''text'')"

definition handleSuggestionClick :: "env \<Rightarrow> jsval \<Rightarrow> jsval \<Rightarrow> state \<Rightarrow> state \<times> outcome" where
  "handleSuggestionClick e suggestion messageId w =
     (case suggestion_text suggestion of
        Inl err \<Rightarrow> (w, Threw err)
      | Inr suggestionText \<Rightarrow>
          (case addMessage e (JObj (click_message e suggestionText)) w of
             (w1, Returned) \<Rightarrow>
               (case hideSuggestions e messageId w1 of
                  (w2, Returned) \<Rightarrow>
                    (w2 \<lparr> events := events w2 @
                             [\<lparr> ev_suggestion = suggestion,
                                ev_messageId = messageId,
                                ev_text = suggestionText \<rparr>] \<rparr>,
                     Returned)
                | (w2, out) \<Rightarrow> (w2, out))
           | (w1, out) \<Rightarrow> (w1, out)))"

section \<open>Timers and sequences of calls\<close>

text \<open>The pending timer that is due first; of two with the same due time, the older.\<close>

fun earliest :: "(nat \<times> task) list \<Rightarrow> (nat \<times> task) option" where
  "earliest [] = None"
| "earliest (t # ts) =
     (case earliest ts of
        None \<Rightarrow> Some t
      | Some u \<Rightarrow> (if fst t \<le> fst u then Some t else Some u))"

text \<open>
  \<^verbatim>\<open>suggestionsContainer.parentNode.removeChild(suggestionsContainer)\<close>: the box leaves
  the element it was created in; an element that is no longer in the container is
  not seen.
\<close>

definition remove_suggestions :: "nat \<Rightarrow> node \<Rightarrow> node" where
  "remove_suggestions n nd =
     (case nd of
        MessageItem el \<Rightarrow>
          (if node_id el = n then MessageItem (el \<lparr> suggestions_of := None \<rparr>) else nd)
      | TypingIndicator \<Rightarrow> nd)"

fun run_task :: "env \<Rightarrow> task \<Rightarrow> state \<Rightarrow> state \<times> outcome" where
  "run_task e (TAddMessage message) w = addMessage e message w"
| "run_task e (TRemoveSuggestions n) w =
     (w \<lparr> container := map_option (map (remove_suggestions n)) (container w) \<rparr>, Returned)"

text \<open>One turn of the event loop: the earliest timer runs if it is due.\<close>

definition tick :: "env \<Rightarrow> state \<Rightarrow> state \<times> outcome" where
  "tick e w =
     (case earliest (timers w) of
        None \<Rightarrow> (w, Returned)
      | Some t \<Rightarrow>
          (if fst t \<le> now e
           then run_task e (snd t) (w \<lparr> timers := remove1 t (timers w) \<rparr>)
           else (w, Returned)))"

datatype op =
    AddMessage jsval
  | UpdateMessage jsval jsval
  | LoadMessages jsval
  | HandleSuggestionClick jsval jsval
  | HideSuggestions jsval
  | ClearMessages
  | ShowTyping
  | HideTyping
  | GetMessages
  | Tick

fun step :: "env \<Rightarrow> op \<Rightarrow> state \<Rightarrow> state \<times> outcome" where
  "step e (AddMessage message) w = addMessage e message w"
| "step e (UpdateMessage messageId updates) w = updateMessage e messageId updates w"
| "step e (LoadMessages msgs) w = loadMessages e msgs w"
| "step e (HandleSuggestionClick suggestion messageId) w =
     handleSuggestionClick e suggestion messageId w"
| "step e (HideSuggestions messageId) w = hideSuggestions e messageId w"
| "step e ClearMessages w = clearMessages w"
| "step e ShowTyping w = showTyping w"
| "step e HideTyping w = hideTyping w"
| "step e GetMessages w = (w, Returned)"
| "step e Tick w = tick e w"

text \<open>
  A sequence of calls, each with its own reading of the surroundings. A call that
  throws leaves the state it reached; the calls after it still happen. A call that
  leaves the model ends the run without a result.
\<close>

fun run :: "state \<Rightarrow> (env \<times> op) list \<Rightarrow> state option" where
  "run w [] = Some w"
| "run w ((e, c) # rest) =
     (case step e c w of
        (w1, OutsideModel) \<Rightarrow> None
      | (w1, out) \<Rightarrow> run w1 rest)"


section \<open>What the claims speak of\<close>

text \<open>The messages that pending \<^verbatim>\<open>loadMessages\<close> timers will pass to \<^verbatim>\<open>addMessage\<close>.\<close>

fun task_messages :: "task \<Rightarrow> jsval list" where
  "task_messages (TAddMessage message) = [message]"
| "task_messages (TRemoveSuggestions n) = []"

definition pending :: "state \<Rightarrow> jsval list" where
  "pending w = concat (map (\<lambda>t. task_messages (snd t)) (timers w))"

text \<open>The calls that clear the list: \<^verbatim>\<open>clearMessages\<close>, and \<^verbatim>\<open>loadMessages\<close> through it.\<close>

fun clears :: "op \<Rightarrow> bool" where
  "clears ClearMessages = True"
| "clears (LoadMessages msgs) = True"
| "clears c = False"

text \<open>The updates of a call of \<^verbatim>\<open>updateMessage\<close> carry an \<^verbatim>\<open>id\<close> property.\<close>

fun updates_id :: "op \<Rightarrow> bool" where
  "updates_id (UpdateMessage messageId updates) = has_prop (own_props updates) ''id''"
| "updates_id c = False"

definition list_ids :: "state \<Rightarrow> jsval list" where
  "list_ids w = map (\<lambda>m. get m ''id'') (messages w)"

definition list_senders :: "state \<Rightarrow> jsval list" where
  "list_senders w = map (\<lambda>m. get m ''sender'') (messages w)"

definition distinct_ids :: "state \<Rightarrow> bool" where
  "distinct_ids w = distinct (list_ids w)"

text \<open>The message items of the container in document order, by their attribute.\<close>

fun item_ids :: "node list \<Rightarrow> string list" where
  "item_ids [] = []"
| "item_ids (MessageItem el # rest) = data_message_id el # item_ids rest"
| "item_ids (TypingIndicator # rest) = item_ids rest"

definition dom_ids :: "state \<Rightarrow> string list" where
  "dom_ids w = (case container w of None \<Rightarrow> [] | Some kids \<Rightarrow> item_ids kids)"

definition indicators :: "state \<Rightarrow> nat" where
  "indicators w = (case container w of None \<Rightarrow> 0 | Some kids \<Rightarrow> count_list kids TypingIndicator)"









text \<open>
  A caller's value (a message, or the updates of \<^verbatim>\<open>updateMessage\<close>) that has no
  \<^verbatim>\<open>sender\<close> property of its own, or has \<^verbatim>\<open>"user"\<close> or \<^verbatim>\<open>"ai"\<close> there.
\<close>

definition sender_ok :: "jsval \<Rightarrow> bool" where
  "sender_ok v =
     (has_prop (own_props v) ''sender'' \<longrightarrow>
        get (own_props v) ''sender'' = JStr ''user'' \<or> get (own_props v) ''sender'' = JStr ''ai'')"

fun senders_given :: "op \<Rightarrow> bool" where
  "senders_given (AddMessage message) = sender_ok message"
| "senders_given (UpdateMessage messageId updates) = sender_ok updates"
| "senders_given (LoadMessages msgs) =
     (case msgs of JArr xs \<Rightarrow> list_all sender_ok xs | _ \<Rightarrow> True)"
| "senders_given c = True"

fun all_senders_given :: "(env \<times> op) list \<Rightarrow> bool" where
  "all_senders_given [] = True"
| "all_senders_given ((e, c) # rest) = (senders_given c \<and> all_senders_given rest)"

section \<open>The messages array as an object of the heap\<close>

text \<open>
  \<^verbatim>\<open>getMessages\<close> returns \<^verbatim>\<open>[...this.messages]\<close>. Whether a caller can reach the
  renderer's list through the result is a matter of which array is which, so here
  arrays and objects live at addresses: an array is the list of the addresses of
  its elements, and an address is a position in the store (nothing is freed).
  \<open>getMessages_heap this_messages\<close> is the call on a renderer whose field
  \<^verbatim>\<open>messages\<close> holds the array at \<open>this_messages\<close>; it returns the new heap and the
  address of the array it returns.
\<close>

record heap =
  objects :: "jsobj list"
  arrays :: "nat list list"

definition getMessages_heap :: "nat \<Rightarrow> heap \<Rightarrow> heap \<times> nat" where
  "getMessages_heap this_messages h =
     (h \<lparr> arrays := arrays h @ [arrays h ! this_messages] \<rparr>, length (arrays h))"

text \<open>Any change of the array at \<open>a\<close> in place (\<^verbatim>\<open>push\<close>, \<^verbatim>\<open>pop\<close>, \<^verbatim>\<open>splice\<close>, ...).\<close>

definition mutate_array :: "nat \<Rightarrow> (nat list \<Rightarrow> nat list) \<Rightarrow> heap \<Rightarrow> heap" where
  "mutate_array a f h = h \<lparr> arrays := (arrays h)[a := f (arrays h ! a)] \<rparr>"

definition array_push :: "nat \<Rightarrow> nat list \<Rightarrow> nat list" where
  "array_push x xs = xs @ [x]"

definition array_pop :: "nat list \<Rightarrow> nat list" where
  "array_pop xs = butlast xs"

text \<open>The message records that the array at \<open>a\<close> holds.\<close>

definition messages_at :: "heap \<Rightarrow> nat \<Rightarrow> jsobj list" where
  "messages_at h a = map (\<lambda>r. objects h ! r) (arrays h ! a)"


section \<open>Objects\<close>

lemma map_of_set_prop: "map_of (set_prop k v ob) = (map_of ob)(k \<mapsto> v)"
  by (induction ob) (auto simp: fun_eq_iff)

lemma get_set_prop: "get (set_prop k v ob) k' = (if k' = k then v else get ob k')"
  by (simp add: get_def map_of_set_prop)

lemma keys_set_prop: "set (map fst (set_prop k v ob)) = insert k (set (map fst ob))"
  by (induction ob) auto

lemma has_prop_set_prop: "has_prop (set_prop k v ob) k' = (k' = k \<or> has_prop ob k')"
  by (simp add: has_prop_def keys_set_prop del: set_map)

lemma get_fold_set_prop:
  "get (fold (\<lambda>k acc. set_prop k (f k) acc) ks base) k' =
     (if k' \<in> set ks then f k' else get base k')"
  by (induction ks arbitrary: base) (auto simp: get_set_prop)

lemma has_prop_fold_set_prop:
  "has_prop (fold (\<lambda>k acc. set_prop k (f k) acc) ks base) k' =
     (k' \<in> set ks \<or> has_prop base k')"
  by (induction ks arbitrary: base) (auto simp: has_prop_set_prop)

text \<open>A spread lets the properties of its source win.\<close>

lemma get_spread:
  "get (spread base src) k = (if has_prop src k then get src k else get base k)"
  by (simp add: spread_def get_fold_set_prop has_prop_def)

lemma has_prop_spread: "has_prop (spread base src) k = (has_prop base k \<or> has_prop src k)"
  unfolding spread_def has_prop_fold_set_prop by (auto simp: has_prop_def)

lemma get_absent: "\<not> has_prop ob k \<Longrightarrow> get ob k = JUndefined"
proof -
  assume "\<not> has_prop ob k"
  then have "map_of ob k = None"
    by (simp add: has_prop_def map_of_eq_None_iff)
  then show ?thesis by (simp add: get_def)
qed

lemma has_prop_Nil [simp]: "\<not> has_prop [] k"
  by (simp add: has_prop_def)

lemma get_merged:
  "get (merged old updates) k =
     (if has_prop (own_props updates) k then get (own_props updates) k else get old k)"
  by (simp add: merged_def get_spread get_absent)

lemma show_nat_nonempty: "show_nat n \<noteq> []"
  by (subst show_nat.simps) simp

lemma rejects_iff: "rejects message = (\<not> valid_message message)"
  by (cases message) (simp_all add: rejects_def)

section \<open>What each call does to the fields\<close>

lemma messages_renderMessage [simp]: "messages (fst (renderMessage e m w)) = messages w"
  by (simp add: renderMessage_def split: sum.splits option.splits)

lemma timers_renderMessage [simp]: "timers (fst (renderMessage e m w)) = timers w"
  by (simp add: renderMessage_def split: sum.splits option.splits)

lemma isTyping_renderMessage [simp]: "isTyping (fst (renderMessage e m w)) = isTyping w"
  by (simp add: renderMessage_def split: sum.splits option.splits)

lemma events_renderMessage [simp]: "events (fst (renderMessage e m w)) = events w"
  by (simp add: renderMessage_def split: sum.splits option.splits)

lemma messages_addMessage:
  "messages (fst (addMessage e message w)) =
     (if valid_message message then messages w @ [message_record e (own_props message)]
      else messages w)"
  by (cases message) (simp_all add: addMessage_def invalid_message_def)

lemma timers_addMessage [simp]: "timers (fst (addMessage e message w)) = timers w"
  by (simp add: addMessage_def invalid_message_def split: jsval.splits)


section \<open>addMessage\<close>

text \<open>
  C1. For every state and every valid argument (a plain object with a truthy
  \<^verbatim>\<open>text\<close>), \<^verbatim>\<open>addMessage\<close> puts exactly one record at the end of the list, the one
  built from the argument, whose text is the argument's; the records that were there
  stay as they are and where they are. Whatever the argument, the new list is the
  old one followed by at most one record.
\<close>

theorem addMessage_appends_at_end:
  "(valid_message (JObj ob) \<longrightarrow>
      messages (fst (addMessage e (JObj ob) w)) = messages w @ [message_record e ob] \<and>
      get (message_record e ob) ''text'' = get ob ''text'') \<and>
   (\<exists>rest. messages (fst (addMessage e message w)) = messages w @ rest \<and> length rest \<le> 1)"
proof -
  have "get (message_record e ob) ''text'' = get ob ''text''"
    unfolding message_record_def get_spread by (simp add: get_def)
  then show ?thesis
    by (simp add: messages_addMessage)
qed

theorem addMessage_appends_at_end_witness:
  "valid_message (JObj [(''text'', JStr ''hi'')]) \<and>
   messages (fst (addMessage \<lparr> now = 1700, date_string = show_nat \<rparr>
       (JObj [(''text'', JStr ''hi'')])
       ((ChatRenderer (JStr ''chat'') True) \<lparr> messages := [[(''id'', JStr ''7''), (''text'', JStr ''a'')]] \<rparr>))) =
     [[(''id'', JStr ''7''), (''text'', JStr ''a'')],
      [(''id'', JStr ''1700''), (''text'', JStr ''hi''), (''sender'', JStr ''user''),
       (''timestamp'', JDate 1700)]]"
  using addMessage_appends_at_end
    [of "[(''text'', JStr ''hi'')]" "\<lparr> now = 1700, date_string = show_nat \<rparr>"
        "(ChatRenderer (JStr ''chat'') True) \<lparr> messages := [[(''id'', JStr ''7''), (''text'', JStr ''a'')]] \<rparr>"]
  by (simp add: get_def message_record_def spread_def js_or_def show_nat.simps digit_char_def)

text \<open>
  C9. An argument that the guard rejects (\<^verbatim>\<open>undefined\<close>, \<^verbatim>\<open>null\<close>, any value that is
  not a plain object, an object whose \<^verbatim>\<open>text\<close> is missing or falsy, the empty string
  included) has one effect: one \<^verbatim>\<open>console.error\<close>. The call returns, and the list,
  the typing flag, the container's children, the timers and the events are as
  before.
\<close>

theorem addMessage_rejected_changes_nothing:
  assumes "\<not> valid_message message"
  shows "addMessage e message w = (w \<lparr> console := console w @ [InvalidMessage] \<rparr>, Returned) \<and>
         messages (fst (addMessage e message w)) = messages w \<and>
         isTyping (fst (addMessage e message w)) = isTyping w \<and>
         container (fst (addMessage e message w)) = container w \<and>
         timers (fst (addMessage e message w)) = timers w \<and>
         events (fst (addMessage e message w)) = events w"
proof -
  from assms have "addMessage e message w = invalid_message w"
    by (cases message) (simp_all add: addMessage_def)
  then show ?thesis
    by (simp add: invalid_message_def)
qed

theorem addMessage_rejected_changes_nothing_witness:
  "\<not> valid_message (JObj [(''id'', JStr ''7''), (''text'', JStr [])]) \<and>
   addMessage \<lparr> now = 1700, date_string = show_nat \<rparr>
       (JObj [(''id'', JStr ''7''), (''text'', JStr [])]) (ChatRenderer (JStr ''chat'') True) =
     (\<lparr> container = Some [], messages = [], isTyping = False, timers = [],
        console = [InvalidMessage], events = [], next_node = 0 \<rparr>, Returned)"
  using addMessage_rejected_changes_nothing
    [of "JObj [(''id'', JStr ''7''), (''text'', JStr [])]"
        "\<lparr> now = 1700, date_string = show_nat \<rparr>" "ChatRenderer (JStr ''chat'') True"]
  by (simp add: get_def ChatRenderer_def)

section \<open>updateMessage\<close>

lemma strict_eq_primitive: "\<not> is_object b \<Longrightarrow> strict_eq a b = Some (a = b)"
  by (simp add: strict_eq_def)

lemma findIndex_Found:
  "findIndex messageId ms = Found i \<Longrightarrow>
     i < length ms \<and> strict_eq (get (ms ! i) ''id'') messageId = Some True \<and>
     (\<forall>j < i. strict_eq (get (ms ! j) ''id'') messageId = Some False)"
proof (induction ms arbitrary: i)
  case Nil
  then show ?case by simp
next
  case (Cons m ms)
  show ?case
  proof (cases "strict_eq (get m ''id'') messageId")
    case None
    with Cons.prems show ?thesis by simp
  next
    case (Some b)
    show ?thesis
    proof (cases b)
      case True
      with Some Cons.prems show ?thesis by simp
    next
      case False
      with Some Cons.prems obtain i' where i': "findIndex messageId ms = Found i'" "i = Suc i'"
        by (auto split: lookup.splits)
      from Cons.IH [OF i'(1)] Some False i'(2) show ?thesis
        by (auto simp: less_Suc_eq_0_disj)
    qed
  qed
qed

lemma findIndex_Missing:
  "findIndex messageId ms = Missing \<Longrightarrow>
     \<forall>m \<in> set ms. strict_eq (get m ''id'') messageId = Some False"
  by (induction ms) (auto split: option.splits bool.splits lookup.splits)

lemma findIndex_primitive: "\<not> is_object messageId \<Longrightarrow> findIndex messageId ms \<noteq> Unknown"
  by (induction ms) (auto simp: strict_eq_primitive split: lookup.splits bool.splits)

lemma messages_updateMessage:
  "messages (fst (updateMessage e messageId updates w)) =
     (case findIndex messageId (messages w) of
        Found i \<Rightarrow> (messages w)[i := merged (messages w ! i) updates]
      | _ \<Rightarrow> messages w)"
  by (simp add: updateMessage_def Let_def
        split: lookup.splits option.splits sum.splits conversion.splits)

text \<open>
  C5. \<^verbatim>\<open>updateMessage(messageId, updates)\<close>, for a \<^verbatim>\<open>messageId\<close> that is a primitive
  value (a string, as documented, or a number, a boolean, \<^verbatim>\<open>null\<close>, \<^verbatim>\<open>undefined\<close>):
  if some record of the list has that id, the first such record is replaced, at its
  index, by the merge of the old record with the updates, and every other record
  stays as it is; if no record has that id, the list is unchanged. In the merge a
  property of the updates wins over the old record's.
\<close>

theorem updateMessage_in_place:
  assumes "\<not> is_object messageId"
  shows "((\<exists>m \<in> set (messages w). get m ''id'' = messageId) \<longrightarrow>
            (\<exists>i < length (messages w).
               get (messages w ! i) ''id'' = messageId \<and>
               (\<forall>j < i. get (messages w ! j) ''id'' \<noteq> messageId) \<and>
               messages (fst (updateMessage e messageId updates w)) =
                 (messages w)[i := merged (messages w ! i) updates])) \<and>
         ((\<forall>m \<in> set (messages w). get m ''id'' \<noteq> messageId) \<longrightarrow>
            messages (fst (updateMessage e messageId updates w)) = messages w) \<and>
         (\<forall>old k. get (merged old updates) k =
            (if has_prop (own_props updates) k then get (own_props updates) k else get old k))"
proof (cases "findIndex messageId (messages w)")
  case (Found i)
  from findIndex_Found [OF Found] assms
  have i: "i < length (messages w)" "get (messages w ! i) ''id'' = messageId"
    "\<forall>j < i. get (messages w ! j) ''id'' \<noteq> messageId"
    by (simp_all add: strict_eq_primitive)
  have upd: "messages (fst (updateMessage e messageId updates w)) =
      (messages w)[i := merged (messages w ! i) updates]"
    by (simp add: messages_updateMessage Found)
  from i(1,2) have "\<not> (\<forall>m \<in> set (messages w). get m ''id'' \<noteq> messageId)"
    using nth_mem by blast
  with i upd show ?thesis
    by (auto simp: get_merged)
next
  case Missing
  from findIndex_Missing [OF Missing] assms
  have "\<forall>m \<in> set (messages w). get m ''id'' \<noteq> messageId"
    by (simp add: strict_eq_primitive)
  then show ?thesis
    by (simp add: messages_updateMessage Missing get_merged)
next
  case Unknown
  with findIndex_primitive [OF assms] show ?thesis by simp
qed

theorem updateMessage_in_place_witness:
  "\<not> is_object (JStr ''1'') \<and>
   messages (fst (updateMessage \<lparr> now = 1700, date_string = show_nat \<rparr> (JStr ''1'')
       (JObj [(''text'', JStr ''x''), (''edited'', JBool True)])
       ((ChatRenderer (JStr ''chat'') True)
          \<lparr> messages := [[(''id'', JStr ''1''), (''text'', JStr ''a'')],
                         [(''id'', JStr ''2''), (''text'', JStr ''b'')]] \<rparr>))) =
     [[(''id'', JStr ''1''), (''text'', JStr ''x''), (''edited'', JBool True)],
      [(''id'', JStr ''2''), (''text'', JStr ''b'')]]"
  using updateMessage_in_place
    [of "JStr ''1''"
        "(ChatRenderer (JStr ''chat'') True)
          \<lparr> messages := [[(''id'', JStr ''1''), (''text'', JStr ''a'')],
                         [(''id'', JStr ''2''), (''text'', JStr ''b'')]] \<rparr>"
        "\<lparr> now = 1700, date_string = show_nat \<rparr>"
        "JObj [(''text'', JStr ''x''), (''edited'', JBool True)]"]
  by (simp add: messages_updateMessage strict_eq_def get_def merged_def spread_def)

section \<open>getMessages\<close>

text \<open>
  C10. \<^verbatim>\<open>getMessages\<close> reads and does not write: it returns a new array, at an address
  that was not in use, with the elements of the renderer's list (the same objects);
  every array and object that existed is as before, the renderer's list among them.
  Whatever is then done in place to the returned array (a push, a removal, any
  change \<open>f\<close> of its elements), the renderer's list stays the same.
\<close>

theorem getMessages_fresh_copy:
  assumes "this_messages < length (arrays h)"
  shows "snd (getMessages_heap this_messages h) \<noteq> this_messages \<and>
         snd (getMessages_heap this_messages h) \<notin> {..< length (arrays h)} \<and>
         arrays (fst (getMessages_heap this_messages h)) ! snd (getMessages_heap this_messages h) =
           arrays h ! this_messages \<and>
         take (length (arrays h)) (arrays (fst (getMessages_heap this_messages h))) = arrays h \<and>
         objects (fst (getMessages_heap this_messages h)) = objects h \<and>
         messages_at (fst (getMessages_heap this_messages h)) this_messages =
           messages_at h this_messages \<and>
         messages_at (fst (getMessages_heap this_messages h)) (snd (getMessages_heap this_messages h)) =
           messages_at h this_messages \<and>
         (\<forall>f. messages_at
                (mutate_array (snd (getMessages_heap this_messages h)) f
                   (fst (getMessages_heap this_messages h))) this_messages =
              messages_at h this_messages) \<and>
         getMessages w = messages w"
  using assms
  by (simp add: getMessages_heap_def mutate_array_def messages_at_def getMessages_def nth_append)

theorem getMessages_fresh_copy_witness:
  "(0::nat) < length (arrays \<lparr> objects = [[(''id'', JStr ''1'')]], arrays = [[0]] \<rparr>) \<and>
   getMessages_heap 0 \<lparr> objects = [[(''id'', JStr ''1'')]], arrays = [[0]] \<rparr> =
     (\<lparr> objects = [[(''id'', JStr ''1'')]], arrays = [[0], [0]] \<rparr>, 1) \<and>
   arrays (mutate_array 1 (array_push 0) \<lparr> objects = [[(''id'', JStr ''1'')]], arrays = [[0], [0]] \<rparr>) =
     [[0], [0, 0]] \<and>
   arrays (mutate_array 1 array_pop \<lparr> objects = [[(''id'', JStr ''1'')]], arrays = [[0], [0]] \<rparr>) =
     [[0], []]"
  using getMessages_fresh_copy [of 0 "\<lparr> objects = [[(''id'', JStr ''1'')]], arrays = [[0]] \<rparr>"]
  by (simp add: getMessages_heap_def mutate_array_def array_push_def array_pop_def)

section \<open>Evaluating calls\<close>

text \<open>The definitions that the evaluation of a sequence of calls unfolds.\<close>

lemmas eval_defs =
  ChatRenderer_def addMessage_def invalid_message_def message_record_def spread_def get_def
  has_prop_def js_or_def show_nat.simps digit_char_def show_int_def
  renderMessage_def message_suggestions_def message_avatar_def renderSuggestions_def text_of_def
  join_conversions_def
  updateMessage_def strict_eq_def merged_def selector_def css_plain_def remove_at_def
  hideSuggestions_def handleSuggestionClick_def suggestion_text_def click_message_def
  getUserAvatar_def getUserInitial_def
  showTyping_def hideTyping_def clearMessages_def loadMessages_def tick_def
  list_ids_def list_senders_def distinct_ids_def dom_ids_def indicators_def

section \<open>The typing indicator\<close>









lemma indicators_messages [simp]: "indicators (w\<lparr>messages := ms\<rparr>) = indicators w"
  by (simp add: indicators_def)

lemma indicators_timers [simp]: "indicators (w\<lparr>timers := ts\<rparr>) = indicators w"
  by (simp add: indicators_def)

lemma indicators_events [simp]: "indicators (w\<lparr>events := es\<rparr>) = indicators w"
  by (simp add: indicators_def)

lemma indicators_console [simp]: "indicators (w\<lparr>console := c\<rparr>) = indicators w"
  by (simp add: indicators_def)

lemma indicators_isTyping [simp]: "indicators (w\<lparr>isTyping := b\<rparr>) = indicators w"
  by (simp add: indicators_def)















section \<open>handleSuggestionClick\<close>

lemma click_record:
  "get (message_record e (click_message e t)) ''sender'' = JStr ''user'' \<and>
   get (message_record e (click_message e t)) ''text'' = t \<and>
   get (message_record e (click_message e t)) ''id'' = JStr (show_nat (now e)) \<and>
   get (message_record e (click_message e t)) ''userAvatar'' = JNull \<and>
   get (message_record e (click_message e t)) ''userInitial'' = JStr ''U''"
  unfolding message_record_def get_spread
  by (simp add: click_message_def has_prop_def get_def getUserAvatar_def getUserInitial_def)

lemma click_suggestions:
  "message_suggestions ds (message_record e (click_message e t)) = Inr None"
  by (simp add: message_suggestions_def click_record)

lemma click_avatar:
  "message_avatar ds (message_record e (click_message e t)) = Inr (Some (AvatarInitial ''U''))"
  by (simp add: message_avatar_def click_record js_or_def text_of_def)

text \<open>A truthy value is neither \<^verbatim>\<open>null\<close> nor \<^verbatim>\<open>undefined\<close>: its text is its string.\<close>

lemma text_of_truthy: "truthy v \<Longrightarrow> text_of ds v = to_string ds v"
  by (cases v) (simp_all add: text_of_def)

lemma click_addMessage:
  assumes "truthy t" and "container w = Some kids"
    and "to_string (date_string e) t = Converted label"
  shows "snd (addMessage e (JObj (click_message e t)) w) = Returned \<and>
         messages (fst (addMessage e (JObj (click_message e t)) w)) =
           messages w @ [message_record e (click_message e t)] \<and>
         events (fst (addMessage e (JObj (click_message e t)) w)) = events w \<and>
         container (fst (addMessage e (JObj (click_message e t)) w)) \<noteq> None"
proof -
  from assms(1) have "truthy (get (click_message e t) ''text'')"
    by (simp add: click_message_def get_def)
  with assms show ?thesis
    by (simp add: addMessage_def renderMessage_def click_suggestions click_avatar click_record
          text_of_truthy)
qed

lemma click_addMessage_rejected:
  assumes "\<not> truthy t"
  shows "addMessage e (JObj (click_message e t)) w = invalid_message w"
proof -
  from assms have "\<not> truthy (get (click_message e t) ''text'')"
    by (simp add: click_message_def get_def)
  then show ?thesis
    by (simp add: addMessage_def)
qed

lemma hideSuggestions_plain:
  assumes "container w \<noteq> None" and "to_string (date_string e) messageId = Converted s"
    and "css_plain s"
  shows "snd (hideSuggestions e messageId w) = Returned \<and>
         messages (fst (hideSuggestions e messageId w)) = messages w \<and>
         events (fst (hideSuggestions e messageId w)) = events w"
  using assms
  by (auto simp: hideSuggestions_def selector_def split: option.splits node.splits)

text \<open>
  C6, as amended. On a renderer that has its container, for every suggestion that has
  a text (a string, or a value whose \<^verbatim>\<open>text\<close> can be read), when that text and the
  parent id have string conversions and the parent id's string stands for itself in
  the selector: \<^verbatim>\<open>handleSuggestionClick\<close> returns and dispatches one
  \<^verbatim>\<open>suggestionClick\<close> event whose detail holds the suggestion, the parent id and the
  text. If the text is truthy, exactly one record is appended, with sender
  \<^verbatim>\<open>"user"\<close> and that text; if it is falsy (the empty string, a missing \<^verbatim>\<open>text\<close>),
  \<^verbatim>\<open>addMessage\<close> rejects it and the list stays as it is.
\<close>

theorem handleSuggestionClick_adds_and_dispatches:
  assumes "suggestion_text suggestion = Inr t"
    and "container w = Some kids"
    and "to_string (date_string e) t = Converted label"
    and "to_string (date_string e) messageId = Converted s"
    and "css_plain s"
  shows "snd (handleSuggestionClick e suggestion messageId w) = Returned \<and>
         events (fst (handleSuggestionClick e suggestion messageId w)) =
           events w @ [\<lparr> ev_suggestion = suggestion, ev_messageId = messageId, ev_text = t \<rparr>] \<and>
         (truthy t \<longrightarrow>
            (\<exists>r. messages (fst (handleSuggestionClick e suggestion messageId w)) = messages w @ [r] \<and>
                 get r ''sender'' = JStr ''user'' \<and> get r ''text'' = t \<and>
                 get r ''id'' = JStr (show_nat (now e)))) \<and>
         (\<not> truthy t \<longrightarrow>
            messages (fst (handleSuggestionClick e suggestion messageId w)) = messages w)"
proof -
  obtain w1 out1 where a: "addMessage e (JObj (click_message e t)) w = (w1, out1)"
    by (cases "addMessage e (JObj (click_message e t)) w")
  obtain w2 out2 where h: "hideSuggestions e messageId w1 = (w2, out2)"
    by (cases "hideSuggestions e messageId w1")
  have w1: "out1 = Returned" "container w1 \<noteq> None" "events w1 = events w"
    "truthy t \<longrightarrow> messages w1 = messages w @ [message_record e (click_message e t)]"
    "\<not> truthy t \<longrightarrow> messages w1 = messages w"
    using a click_addMessage [OF _ assms(2,3)] click_addMessage_rejected [of t e w] assms(2)
    by (cases "truthy t"; simp add: invalid_message_def; fastforce)+
  from hideSuggestions_plain [OF w1(2) assms(4,5)] h
  have w2: "out2 = Returned" "messages w2 = messages w1" "events w2 = events w1"
    by simp_all
  from assms(1) a h w1 w2 show ?thesis
    by (simp add: handleSuggestionClick_def click_record)
qed

theorem handleSuggestionClick_adds_and_dispatches_witness:
  "suggestion_text (JObj [(''id'', JNum 3), (''text'', JStr ''Yes'')]) = Inr (JStr ''Yes'') \<and>
   container (ChatRenderer (JStr ''chat'') True) = Some [] \<and>
   to_string show_nat (JStr ''Yes'') = Converted ''Yes'' \<and>
   to_string show_nat (JStr ''m1'') = Converted ''m1'' \<and>
   css_plain ''m1'' \<and>
   messages (fst (handleSuggestionClick \<lparr> now = 1700, date_string = show_nat \<rparr>
       (JObj [(''id'', JNum 3), (''text'', JStr ''Yes'')]) (JStr ''m1'')
       (ChatRenderer (JStr ''chat'') True))) =
     [[(''id'', JStr ''1700''), (''text'', JStr ''Yes''), (''sender'', JStr ''user''),
       (''timestamp'', JDate 1700), (''userAvatar'', JNull), (''userInitial'', JStr ''U'')]] \<and>
   events (fst (handleSuggestionClick \<lparr> now = 1700, date_string = show_nat \<rparr>
       (JObj [(''id'', JNum 3), (''text'', JStr ''Yes'')]) (JStr ''m1'')
       (ChatRenderer (JStr ''chat'') True))) =
     [\<lparr> ev_suggestion = JObj [(''id'', JNum 3), (''text'', JStr ''Yes'')],
        ev_messageId = JStr ''m1'', ev_text = JStr ''Yes'' \<rparr>]"
  using handleSuggestionClick_adds_and_dispatches
    [of "JObj [(''id'', JNum 3), (''text'', JStr ''Yes'')]" "JStr ''Yes''"
        "ChatRenderer (JStr ''chat'') True" "[]" "\<lparr> now = 1700, date_string = show_nat \<rparr>"
        "''Yes''" "JStr ''m1''" "''m1''"]
  by (simp add: eval_defs)

text \<open>
  C6 as stated fails for the suggestion \<^verbatim>\<open>""\<close>: the event is dispatched and no
  message is appended. It fails also when the text is an object without a string
  conversion: the record is appended, rendering it throws and no event is
  dispatched.
\<close>

theorem handleSuggestionClick_empty_text_counterexample:
  "messages (fst (handleSuggestionClick \<lparr> now = 1700, date_string = show_nat \<rparr>
       (JStr []) (JStr ''m1'') (ChatRenderer (JStr ''chat'') True))) = [] \<and>
   events (fst (handleSuggestionClick \<lparr> now = 1700, date_string = show_nat \<rparr>
       (JStr []) (JStr ''m1'') (ChatRenderer (JStr ''chat'') True))) =
     [\<lparr> ev_suggestion = JStr [], ev_messageId = JStr ''m1'', ev_text = JStr [] \<rparr>] \<and>
   snd (handleSuggestionClick \<lparr> now = 1700, date_string = show_nat \<rparr>
       (JObj [(''text'', JObj [(''toString'', JStr ''x'')])]) (JStr ''m1'')
       (ChatRenderer (JStr ''chat'') True)) = Threw TypeError \<and>
   events (fst (handleSuggestionClick \<lparr> now = 1700, date_string = show_nat \<rparr>
       (JObj [(''text'', JObj [(''toString'', JStr ''x'')])]) (JStr ''m1'')
       (ChatRenderer (JStr ''chat'') True))) = []"
  by (simp add: eval_defs)

section \<open>The list and the container\<close>

text \<open>
  C7 does not hold of \<^verbatim>\<open>updateMessage\<close>: it removes the item of the message and
  renders it again with \<^verbatim>\<open>renderMessage\<close>, which appends to the container. After two
  messages \<^verbatim>\<open>"1"\<close>, \<^verbatim>\<open>"2"\<close> and an update of \<^verbatim>\<open>"1"\<close>, the list has the records of
  \<^verbatim>\<open>"1"\<close>, \<^verbatim>\<open>"2"\<close> in this order and the container has the items of \<^verbatim>\<open>"2"\<close>, \<^verbatim>\<open>"1"\<close>.
\<close>

theorem updateMessage_moves_item_to_end:
  "map_option list_ids
     (run (ChatRenderer (JStr ''chat'') True)
        [(\<lparr> now = 1700, date_string = show_nat \<rparr>,
          AddMessage (JObj [(''id'', JStr ''1''), (''text'', JStr ''a'')])),
         (\<lparr> now = 1701, date_string = show_nat \<rparr>,
          AddMessage (JObj [(''id'', JStr ''2''), (''text'', JStr ''b'')])),
         (\<lparr> now = 1702, date_string = show_nat \<rparr>,
          UpdateMessage (JStr ''1'') (JObj [(''text'', JStr ''x'')]))]) =
     Some [JStr ''1'', JStr ''2''] \<and>
   map_option dom_ids
     (run (ChatRenderer (JStr ''chat'') True)
        [(\<lparr> now = 1700, date_string = show_nat \<rparr>,
          AddMessage (JObj [(''id'', JStr ''1''), (''text'', JStr ''a'')])),
         (\<lparr> now = 1701, date_string = show_nat \<rparr>,
          AddMessage (JObj [(''id'', JStr ''2''), (''text'', JStr ''b'')])),
         (\<lparr> now = 1702, date_string = show_nat \<rparr>,
          UpdateMessage (JStr ''1'') (JObj [(''text'', JStr ''x'')]))]) =
     Some [''2'', ''1'']"
  by (simp add: eval_defs)

section \<open>The list under each call\<close>

lemma messages_clearMessages:
  "messages (fst (clearMessages w)) = [] \<or> messages (fst (clearMessages w)) = messages w"
  by (simp add: clearMessages_def split: option.splits)

lemma messages_loadMessages:
  "messages (fst (loadMessages e msgs w)) = [] \<or>
   messages (fst (loadMessages e msgs w)) = messages w"
  by (cases msgs) (simp_all add: loadMessages_def clearMessages_def split: option.splits)

lemma messages_hideSuggestions [simp]:
  "messages (fst (hideSuggestions e messageId w)) = messages w"
  by (simp add: hideSuggestions_def split: option.splits sum.splits node.splits)

lemma messages_handleSuggestionClick:
  "messages (fst (handleSuggestionClick e suggestion messageId w)) =
     (case suggestion_text suggestion of
        Inl err \<Rightarrow> messages w
      | Inr t \<Rightarrow> messages (fst (addMessage e (JObj (click_message e t)) w)))"
proof (cases "suggestion_text suggestion")
  case (Inl err)
  then show ?thesis by (simp add: handleSuggestionClick_def)
next
  case (Inr t)
  obtain w1 out1 where a: "addMessage e (JObj (click_message e t)) w = (w1, out1)"
    by (cases "addMessage e (JObj (click_message e t)) w")
  obtain w2 out2 where h: "hideSuggestions e messageId w1 = (w2, out2)"
    by (cases "hideSuggestions e messageId w1")
  from h have "messages w2 = messages w1"
    using messages_hideSuggestions [of e messageId w1] by simp
  with Inr a h show ?thesis
    by (cases out1; cases out2) (simp_all add: handleSuggestionClick_def)
qed

lemma messages_tick:
  "messages (fst (tick e w)) =
     (case earliest (timers w) of
        None \<Rightarrow> messages w
      | Some t \<Rightarrow>
          (if fst t \<le> now e then
             (case snd t of
                TAddMessage message \<Rightarrow>
                  (if valid_message message
                   then messages w @ [message_record e (own_props message)]
                   else messages w)
              | TRemoveSuggestions n \<Rightarrow> messages w)
           else messages w))"
  by (simp add: tick_def messages_addMessage split: option.splits task.splits)

lemma messages_showTyping [simp]: "messages (fst (showTyping w)) = messages w"
  by (simp add: showTyping_def split: option.splits)

lemma messages_hideTyping [simp]: "messages (fst (hideTyping w)) = messages w"
  by (simp add: hideTyping_def)

lemma earliest_mem: "earliest ts = Some t \<Longrightarrow> t \<in> set ts"
  by (induction ts arbitrary: t) (auto split: option.splits if_splits)

section \<open>Ids\<close>

lemma list_ids_update_keeps:
  assumes "\<not> has_prop (own_props updates) ''id''" and "i < length ms"
  shows "map (\<lambda>m. get m ''id'') (ms[i := merged (ms ! i) updates]) = map (\<lambda>m. get m ''id'') ms"
proof -
  have "map (\<lambda>m. get m ''id'') (ms[i := merged (ms ! i) updates]) =
        (map (\<lambda>m. get m ''id'') ms)[i := get (merged (ms ! i) updates) ''id'']"
    by (simp add: map_update)
  also from assms have "\<dots> = (map (\<lambda>m. get m ''id'') ms)[i := map (\<lambda>m. get m ''id'') ms ! i]"
    by (simp add: get_merged)
  finally show ?thesis by simp
qed

lemma list_ids_updateMessage:
  assumes "\<not> has_prop (own_props updates) ''id''"
  shows "list_ids (fst (updateMessage e messageId updates w)) = list_ids w"
proof (cases "findIndex messageId (messages w)")
  case (Found i)
  with findIndex_Found [OF Found] assms show ?thesis
    by (simp add: list_ids_def messages_updateMessage list_ids_update_keeps)
qed (simp_all add: list_ids_def messages_updateMessage)


lemma list_ids_timers [simp]: "list_ids (w\<lparr>timers := ts\<rparr>) = list_ids w"
  by (simp add: list_ids_def)

section \<open>Senders\<close>

lemma sender_record:
  assumes "sender_ok (JObj ob)"
  shows "get (message_record e ob) ''sender'' = JStr ''user'' \<or>
         get (message_record e ob) ''sender'' = JStr ''ai''"
proof (cases "has_prop ob ''sender''")
  case True
  with assms show ?thesis
    unfolding message_record_def get_spread by (simp add: sender_ok_def)
next
  case False
  then have "get ob ''sender'' = JUndefined" by (rule get_absent)
  with False show ?thesis
    unfolding message_record_def get_spread by (simp add: get_def js_or_def)
qed

lemma sender_merged:
  assumes "sender_ok updates"
    and "get old ''sender'' = JStr ''user'' \<or> get old ''sender'' = JStr ''ai''"
  shows "get (merged old updates) ''sender'' = JStr ''user'' \<or>
         get (merged old updates) ''sender'' = JStr ''ai''"
  using assms by (simp add: get_merged sender_ok_def)

lemma sender_click: "sender_ok (JObj (click_message e t))"
  by (simp add: sender_ok_def click_message_def get_def)

lemma senders_addMessage:
  assumes "\<forall>m \<in> set (messages w). get m ''sender'' = JStr ''user'' \<or> get m ''sender'' = JStr ''ai''"
    and "sender_ok message"
  shows "\<forall>m \<in> set (messages (fst (addMessage e message w))).
           get m ''sender'' = JStr ''user'' \<or> get m ''sender'' = JStr ''ai''"
  using assms by (cases message) (auto simp: messages_addMessage sender_record)

lemma senders_updateMessage:
  assumes "\<forall>m \<in> set (messages w). get m ''sender'' = JStr ''user'' \<or> get m ''sender'' = JStr ''ai''"
    and "sender_ok updates"
  shows "\<forall>m \<in> set (messages (fst (updateMessage e messageId updates w))).
           get m ''sender'' = JStr ''user'' \<or> get m ''sender'' = JStr ''ai''"
proof (cases "findIndex messageId (messages w)")
  case (Found i)
  from findIndex_Found [OF Found] have i: "i < length (messages w)" by simp
  with assms(1) have old: "get (messages w ! i) ''sender'' = JStr ''user'' \<or>
      get (messages w ! i) ''sender'' = JStr ''ai''"
    by simp
  have "set ((messages w)[i := merged (messages w ! i) updates]) \<subseteq>
      insert (merged (messages w ! i) updates) (set (messages w))"
    by (rule set_update_subset_insert)
  with assms(1) sender_merged [OF assms(2) old] Found show ?thesis
    by (auto simp: messages_updateMessage)
next
  case Missing
  with assms(1) show ?thesis by (simp add: messages_updateMessage)
next
  case Unknown
  with assms(1) show ?thesis by (simp add: messages_updateMessage)
qed

lemma timers_updateMessage [simp]:
  "timers (fst (updateMessage e messageId updates w)) = timers w"
  by (simp add: updateMessage_def Let_def
        split: lookup.splits option.splits sum.splits conversion.splits)

lemma pending_timers: "timers w' = timers w \<Longrightarrow> pending w' = pending w"
  by (simp add: pending_def)

lemma pending_loaded:
  "concat (map (\<lambda>t. task_messages (snd t))
     (map (\<lambda>(index, message). (f index, TAddMessage message)) (enumerate n xs))) = xs"
  by (induction xs arbitrary: n) simp_all

lemma pending_append_loaded:
  "concat (map (\<lambda>t. task_messages (snd t))
     (ts @ map (\<lambda>(index, message). (f index, TAddMessage message)) (enumerate n xs))) =
   concat (map (\<lambda>t. task_messages (snd t)) ts) @ xs"
  by (simp only: map_append concat_append pending_loaded)

lemma pending_loadMessages:
  "set (pending (fst (loadMessages e msgs w))) \<subseteq>
     set (pending w) \<union> (case msgs of JArr xs \<Rightarrow> set xs | _ \<Rightarrow> {})"
proof (cases msgs)
  case (JArr xs)
  show ?thesis
  proof (cases "container w")
    case None
    with JArr show ?thesis
      by (simp add: loadMessages_def clearMessages_def)
  next
    case (Some kids)
    with JArr have "pending (fst (loadMessages e msgs w)) = pending w @ xs"
      by (simp add: loadMessages_def clearMessages_def pending_def pending_append_loaded
            del: map_append map_map)
    with JArr show ?thesis by simp
  qed
qed (simp_all add: loadMessages_def pending_def)

lemma pending_hideSuggestions [simp]:
  "pending (fst (hideSuggestions e messageId w)) = pending w"
  by (simp add: hideSuggestions_def pending_def split: option.splits sum.splits node.splits)

lemma pending_handleSuggestionClick [simp]:
  "pending (fst (handleSuggestionClick e suggestion messageId w)) = pending w"
proof (cases "suggestion_text suggestion")
  case (Inl err)
  then show ?thesis by (simp add: handleSuggestionClick_def)
next
  case (Inr t)
  obtain w1 out1 where a: "addMessage e (JObj (click_message e t)) w = (w1, out1)"
    by (cases "addMessage e (JObj (click_message e t)) w")
  obtain w2 out2 where h: "hideSuggestions e messageId w1 = (w2, out2)"
    by (cases "hideSuggestions e messageId w1")
  from a have "pending w1 = pending w"
    using timers_addMessage [of e "JObj (click_message e t)" w] by (simp add: pending_def)
  moreover from h have "pending w2 = pending w1"
    using pending_hideSuggestions [of e messageId w1] by simp
  ultimately show ?thesis
    using Inr a h
    by (cases out1; cases out2) (simp_all add: handleSuggestionClick_def pending_def)
qed

lemma pending_remove1: "set (pending (w\<lparr>timers := remove1 t (timers w)\<rparr>)) \<subseteq> set (pending w)"
  using set_remove1_subset [of t "timers w"] by (auto simp: pending_def)

lemma pending_earliest:
  "earliest (timers w) = Some (due, TAddMessage message) \<Longrightarrow> message \<in> set (pending w)"
  by (drule earliest_mem) (force simp: pending_def)

lemma senders_step:
  assumes msgs: "\<forall>m \<in> set (messages w). get m ''sender'' = JStr ''user'' \<or> get m ''sender'' = JStr ''ai''"
    and pend: "\<forall>m \<in> set (pending w). sender_ok m"
    and given: "senders_given c"
  shows "(\<forall>m \<in> set (messages (fst (step e c w))).
            get m ''sender'' = JStr ''user'' \<or> get m ''sender'' = JStr ''ai'') \<and>
         (\<forall>m \<in> set (pending (fst (step e c w))). sender_ok m)"
proof (cases c)
  case (AddMessage message)
  with senders_addMessage [OF msgs, of message e] given pend show ?thesis
    by (simp add: pending_timers [of "fst (addMessage e message w)" w])
next
  case (UpdateMessage messageId updates)
  with senders_updateMessage [OF msgs, of updates e messageId] given pend show ?thesis
    by (simp add: pending_timers [of "fst (updateMessage e messageId updates w)" w])
next
  case (LoadMessages xs)
  from LoadMessages given have "\<forall>m \<in> (case xs of JArr ys \<Rightarrow> set ys | _ \<Rightarrow> {}). sender_ok m"
    by (cases xs) (simp_all add: list_all_iff)
  with pend pending_loadMessages [of e xs w]
  have "\<forall>m \<in> set (pending (fst (loadMessages e xs w))). sender_ok m"
    by blast
  with LoadMessages msgs messages_loadMessages [of e xs w] show ?thesis
    by auto
next
  case (HandleSuggestionClick suggestion messageId)
  have "\<forall>m \<in> set (messages (fst (handleSuggestionClick e suggestion messageId w))).
      get m ''sender'' = JStr ''user'' \<or> get m ''sender'' = JStr ''ai''"
    using msgs senders_addMessage [OF msgs sender_click]
    by (cases "suggestion_text suggestion") (simp_all add: messages_handleSuggestionClick)
  with HandleSuggestionClick pend show ?thesis by simp
next
  case (HideSuggestions messageId)
  with msgs pend show ?thesis by simp
next
  case ClearMessages
  have "pending (fst (clearMessages w)) = pending w"
    by (simp add: clearMessages_def pending_def split: option.splits)
  with ClearMessages msgs pend messages_clearMessages [of w] show ?thesis
    by auto
next
  case ShowTyping
  have "pending (fst (showTyping w)) = pending w"
    by (simp add: showTyping_def pending_def split: option.splits)
  with ShowTyping msgs pend show ?thesis by simp
next
  case HideTyping
  have "pending (fst (hideTyping w)) = pending w"
    by (simp add: hideTyping_def pending_def)
  with HideTyping msgs pend show ?thesis by simp
next
  case GetMessages
  with msgs pend show ?thesis by simp
next
  case Tick
  show ?thesis
  proof (cases "earliest (timers w)")
    case None
    with Tick msgs pend show ?thesis by (simp add: tick_def)
  next
    case (Some t)
    obtain due task where t: "t = (due, task)" by (cases t)
    let ?w = "w\<lparr>timers := remove1 t (timers w)\<rparr>"
    from pend pending_remove1 [where w = w and t = t] have pend': "\<forall>m \<in> set (pending ?w). sender_ok m"
      by blast
    from msgs have msgs': "\<forall>m \<in> set (messages ?w).
        get m ''sender'' = JStr ''user'' \<or> get m ''sender'' = JStr ''ai''"
      by simp
    show ?thesis
    proof (cases "due \<le> now e")
      case False
      with Tick Some t msgs pend show ?thesis by (simp add: tick_def)
    next
      case True
      show ?thesis
      proof (cases task)
        case (TAddMessage message)
        with Some t pend have "sender_ok message"
          using pending_earliest [of w due message] by simp
        from senders_addMessage [OF msgs' this, of e] pend'
          pending_timers [of "fst (addMessage e message ?w)" ?w]
        show ?thesis
          using Tick Some t True TAddMessage by (simp add: tick_def)
      next
        case (TRemoveSuggestions n)
        have "pending (?w\<lparr>container := map_option (map (remove_suggestions n)) (container ?w)\<rparr>) =
            pending ?w"
          by (simp add: pending_def)
        with Tick Some t True TRemoveSuggestions msgs pend' show ?thesis
          by (simp add: tick_def)
      qed
    qed
  qed
qed

lemma senders_run:
  assumes "all_senders_given calls"
    and "run w calls = Some w'"
    and "\<forall>m \<in> set (messages w). get m ''sender'' = JStr ''user'' \<or> get m ''sender'' = JStr ''ai''"
    and "\<forall>m \<in> set (pending w). sender_ok m"
  shows "\<forall>m \<in> set (messages w'). get m ''sender'' = JStr ''user'' \<or> get m ''sender'' = JStr ''ai''"
  using assms
proof (induction calls arbitrary: w)
  case Nil
  then show ?case by simp
next
  case (Cons ec calls)
  obtain e c where ec: "ec = (e, c)" by (cases ec)
  obtain w1 out where s: "step e c w = (w1, out)" by (cases "step e c w")
  from Cons.prems(2) ec s have r: "run w1 calls = Some w'"
    by (cases out) simp_all
  from Cons.prems(1) ec have g: "senders_given c" "all_senders_given calls"
    by simp_all
  from senders_step [OF Cons.prems(3,4) g(1), of e] s
  have "\<forall>m \<in> set (messages w1). get m ''sender'' = JStr ''user'' \<or> get m ''sender'' = JStr ''ai''"
    "\<forall>m \<in> set (pending w1). sender_ok m"
    by simp_all
  from Cons.IH [OF g(2) r this] show ?case .
qed

text \<open>
  C3, as amended. The renderer stores the sender it is given and checks nothing. In
  every state reached from a new renderer by calls whose messages (\<^verbatim>\<open>addMessage\<close>,
  the elements given to \<^verbatim>\<open>loadMessages\<close>) and updates (\<^verbatim>\<open>updateMessage\<close>) either have
  no \<^verbatim>\<open>sender\<close> property or have \<^verbatim>\<open>"user"\<close> or \<^verbatim>\<open>"ai"\<close> there, every record of the
  list has the sender \<^verbatim>\<open>"user"\<close> or \<^verbatim>\<open>"ai"\<close>.
\<close>

theorem senders_user_or_ai:
  assumes "all_senders_given calls"
    and "run (ChatRenderer containerId found) calls = Some w"
  shows "\<forall>m \<in> set (messages w). get m ''sender'' = JStr ''user'' \<or> get m ''sender'' = JStr ''ai''"
  by (rule senders_run [OF assms]) (simp_all add: ChatRenderer_def pending_def)


theorem senders_user_or_ai_witness:
  "all_senders_given
     [(\<lparr> now = 1700, date_string = show_nat \<rparr>,
       AddMessage (JObj [(''id'', JStr ''1''), (''text'', JStr ''a'')])),
      (\<lparr> now = 1701, date_string = show_nat \<rparr>,
       AddMessage (JObj [(''id'', JStr ''2''), (''text'', JStr ''b''), (''sender'', JStr ''ai'')])),
      (\<lparr> now = 1702, date_string = show_nat \<rparr>,
       UpdateMessage (JStr ''1'') (JObj [(''text'', JStr ''x'')]))] \<and>
   map_option list_senders
     (run (ChatRenderer (JStr ''chat'') True)
        [(\<lparr> now = 1700, date_string = show_nat \<rparr>,
          AddMessage (JObj [(''id'', JStr ''1''), (''text'', JStr ''a'')])),
         (\<lparr> now = 1701, date_string = show_nat \<rparr>,
          AddMessage (JObj [(''id'', JStr ''2''), (''text'', JStr ''b''), (''sender'', JStr ''ai'')])),
         (\<lparr> now = 1702, date_string = show_nat \<rparr>,
          UpdateMessage (JStr ''1'') (JObj [(''text'', JStr ''x'')]))]) =
     Some [JStr ''user'', JStr ''ai'']"
proof -
  let ?calls = "[(\<lparr> now = 1700, date_string = show_nat \<rparr>,
       AddMessage (JObj [(''id'', JStr ''1''), (''text'', JStr ''a'')])),
      (\<lparr> now = 1701, date_string = show_nat \<rparr>,
       AddMessage (JObj [(''id'', JStr ''2''), (''text'', JStr ''b''), (''sender'', JStr ''ai'')])),
      (\<lparr> now = 1702, date_string = show_nat \<rparr>,
       UpdateMessage (JStr ''1'') (JObj [(''text'', JStr ''x'')]))]"
  have g: "all_senders_given ?calls"
    by (simp add: sender_ok_def has_prop_def get_def)
  have s: "map_option list_senders (run (ChatRenderer (JStr ''chat'') True) ?calls) =
      Some [JStr ''user'', JStr ''ai'']"
    by (simp add: eval_defs)
  then obtain w where r: "run (ChatRenderer (JStr ''chat'') True) ?calls = Some w"
    by blast
  from senders_user_or_ai [OF g r] g s show ?thesis
    by simp
qed

text \<open>C3 as stated fails: a message given with the sender \<^verbatim>\<open>"system"\<close> is stored with it.\<close>

theorem foreign_sender_counterexample:
  "map_option list_senders
     (run (ChatRenderer (JStr ''chat'') True)
        [(\<lparr> now = 1700, date_string = show_nat \<rparr>,
          AddMessage (JObj [(''text'', JStr ''hi''), (''sender'', JStr ''system'')]))]) =
     Some [JStr ''system'']"
  by (simp add: eval_defs)

section \<open>No record is removed alone\<close>

lemma grows_by_one:
  assumes "ms' = ms \<or> ms' = ms @ [r]"
  shows "length ms \<le> length ms' \<and> (\<forall>j < length ms. ms' ! j = ms ! j) \<and>
         set (map f ms) \<subseteq> set (map f ms')"
  using assms by (auto simp: nth_append)

lemma step_grows:
  assumes "\<not> clears c" and "\<forall>messageId updates. c \<noteq> UpdateMessage messageId updates"
  shows "\<exists>r. messages (fst (step e c w)) = messages w \<or>
             messages (fst (step e c w)) = messages w @ [r]"
proof (cases c)
  case (AddMessage message)
  then show ?thesis by (simp add: messages_addMessage)
next
  case (HandleSuggestionClick suggestion messageId)
  then show ?thesis
    by (cases "suggestion_text suggestion")
       (simp_all add: messages_handleSuggestionClick messages_addMessage)
next
  case Tick
  then show ?thesis
    by (simp add: messages_tick split: option.splits task.splits)
qed (use assms in simp_all)

text \<open>
  C4, as amended. For every call that does not clear (every call other than
  \<^verbatim>\<open>clearMessages\<close> and \<^verbatim>\<open>loadMessages\<close>; a timer's \<^verbatim>\<open>addMessage\<close> is such a call), the
  list does not get shorter and every record stays at its index, unchanged or, under
  \<^verbatim>\<open>updateMessage\<close>, replaced by its merge with the updates; every id that was in
  the list is still in it, unless the call is an \<^verbatim>\<open>updateMessage\<close> whose updates have
  an \<^verbatim>\<open>id\<close> property. A call that clears leaves the list empty, or as it was when
  it fails before clearing.
\<close>

theorem no_single_removal:
  "(\<not> clears c \<longrightarrow>
      length (messages w) \<le> length (messages (fst (step e c w))) \<and>
      (\<forall>j < length (messages w).
         messages (fst (step e c w)) ! j = messages w ! j \<or>
         (\<exists>messageId updates. c = UpdateMessage messageId updates \<and>
            messages (fst (step e c w)) ! j = merged (messages w ! j) updates))) \<and>
   (\<not> clears c \<and> \<not> updates_id c \<longrightarrow> set (list_ids w) \<subseteq> set (list_ids (fst (step e c w)))) \<and>
   (clears c \<longrightarrow>
      messages (fst (step e c w)) = [] \<or> messages (fst (step e c w)) = messages w)"
proof (cases c)
  case (UpdateMessage messageId updates)
  have len: "length (messages (fst (step e c w))) = length (messages w)"
    using UpdateMessage by (simp add: messages_updateMessage split: lookup.splits)
  have nth: "messages (fst (step e c w)) ! j = messages w ! j \<or>
      messages (fst (step e c w)) ! j = merged (messages w ! j) updates"
    if "j < length (messages w)" for j
  proof (cases "findIndex messageId (messages w)")
    case (Found i)
    with UpdateMessage that show ?thesis
      by (cases "i = j") (simp_all add: messages_updateMessage)
  qed (use UpdateMessage in \<open>simp_all add: messages_updateMessage\<close>)
  have ids: "list_ids (fst (step e c w)) = list_ids w" if "\<not> updates_id c"
    using UpdateMessage that by (simp add: list_ids_updateMessage)
  from UpdateMessage len nth ids show ?thesis
    by auto
next
  case (LoadMessages msgs)
  with messages_loadMessages [of e msgs w] show ?thesis by simp
next
  case ClearMessages
  with messages_clearMessages [of w] show ?thesis by simp
next
  case (AddMessage message)
  then have c: "\<not> clears c" "\<forall>messageId updates. c \<noteq> UpdateMessage messageId updates"
    by simp_all
  from step_grows [OF c, of e w] obtain r where
    "messages (fst (step e c w)) = messages w \<or> messages (fst (step e c w)) = messages w @ [r]"
    by blast
  from grows_by_one [OF this, of "\<lambda>m. get m ''id''"] c show ?thesis
    by (simp add: list_ids_def)
next
  case (HandleSuggestionClick suggestion messageId)
  then have c: "\<not> clears c" "\<forall>messageId updates. c \<noteq> UpdateMessage messageId updates"
    by simp_all
  from step_grows [OF c, of e w] obtain r where
    "messages (fst (step e c w)) = messages w \<or> messages (fst (step e c w)) = messages w @ [r]"
    by blast
  from grows_by_one [OF this, of "\<lambda>m. get m ''id''"] c show ?thesis
    by (simp add: list_ids_def)
next
  case Tick
  then have c: "\<not> clears c" "\<forall>messageId updates. c \<noteq> UpdateMessage messageId updates"
    by simp_all
  from step_grows [OF c, of e w] obtain r where
    "messages (fst (step e c w)) = messages w \<or> messages (fst (step e c w)) = messages w @ [r]"
    by blast
  from grows_by_one [OF this, of "\<lambda>m. get m ''id''"] c show ?thesis
    by (simp add: list_ids_def)
qed (simp_all add: list_ids_def)

theorem no_single_removal_witness:
  "\<not> clears (UpdateMessage (JStr ''1'') (JObj [(''text'', JStr ''x'')])) \<and>
   \<not> updates_id (UpdateMessage (JStr ''1'') (JObj [(''text'', JStr ''x'')])) \<and>
   list_ids ((ChatRenderer (JStr ''chat'') True)
      \<lparr> messages := [[(''id'', JStr ''1''), (''text'', JStr ''a'')],
                     [(''id'', JStr ''2''), (''text'', JStr ''b'')]] \<rparr>) = [JStr ''1'', JStr ''2''] \<and>
   list_ids (fst (step \<lparr> now = 1700, date_string = show_nat \<rparr>
      (UpdateMessage (JStr ''1'') (JObj [(''text'', JStr ''x'')]))
      ((ChatRenderer (JStr ''chat'') True)
        \<lparr> messages := [[(''id'', JStr ''1''), (''text'', JStr ''a'')],
                       [(''id'', JStr ''2''), (''text'', JStr ''b'')]] \<rparr>))) = [JStr ''1'', JStr ''2''] \<and>
   clears ClearMessages \<and>
   messages (fst (step \<lparr> now = 1700, date_string = show_nat \<rparr> ClearMessages
      ((ChatRenderer (JStr ''chat'') True)
        \<lparr> messages := [[(''id'', JStr ''1''), (''text'', JStr ''a'')],
                       [(''id'', JStr ''2''), (''text'', JStr ''b'')]] \<rparr>))) = []"
  using no_single_removal
    [of "UpdateMessage (JStr ''1'') (JObj [(''text'', JStr ''x'')])"
        "(ChatRenderer (JStr ''chat'') True)
          \<lparr> messages := [[(''id'', JStr ''1''), (''text'', JStr ''a'')],
                         [(''id'', JStr ''2''), (''text'', JStr ''b'')]] \<rparr>"
        "\<lparr> now = 1700, date_string = show_nat \<rparr>"]
  by (simp add: has_prop_def list_ids_def get_def messages_updateMessage strict_eq_def
        merged_def spread_def clearMessages_def ChatRenderer_def)

text \<open>
  C4 as stated fails: \<^verbatim>\<open>updateMessage("1", {id: "2"})\<close> leaves a list in which the
  id \<^verbatim>\<open>"1"\<close> is no longer present.
\<close>

theorem updateMessage_replaces_id_counterexample:
  "map_option list_ids
     (run (ChatRenderer (JStr ''chat'') True)
        [(\<lparr> now = 1700, date_string = show_nat \<rparr>,
          AddMessage (JObj [(''id'', JStr ''1''), (''text'', JStr ''a'')]))]) =
     Some [JStr ''1''] \<and>
   map_option list_ids
     (run (ChatRenderer (JStr ''chat'') True)
        [(\<lparr> now = 1700, date_string = show_nat \<rparr>,
          AddMessage (JObj [(''id'', JStr ''1''), (''text'', JStr ''a'')])),
         (\<lparr> now = 1701, date_string = show_nat \<rparr>,
          UpdateMessage (JStr ''1'') (JObj [(''id'', JStr ''2'')]))]) =
     Some [JStr ''2'']"
  by (simp add: eval_defs)

section \<open>Ids kept apart\<close>

lemma digit_char_inj:
  assumes "a < 10" and "b < 10" and "digit_char a = digit_char b"
  shows "a = b"
proof -
  have "distinct ''0123456789''" by simp
  moreover from assms have "a < length ''0123456789''" "b < length ''0123456789''"
    "''0123456789'' ! a = ''0123456789'' ! b"
    by (simp_all add: digit_char_def)
  ultimately show ?thesis
    using nth_eq_iff_index_eq by blast
qed

lemma show_nat_snoc:
  "show_nat n = (if n < 10 then [] else show_nat (n div 10)) @ [digit_char (n mod 10)]"
  by (subst show_nat.simps) simp

text \<open>Different clock readings have different strings.\<close>

lemma show_nat_inj: "show_nat m = show_nat n \<Longrightarrow> m = n"
proof (induction m arbitrary: n rule: less_induct)
  case (less m)
  from less.prems have eq: "(if m < 10 then [] else show_nat (m div 10)) @ [digit_char (m mod 10)] =
      (if n < 10 then [] else show_nat (n div 10)) @ [digit_char (n mod 10)]"
    using show_nat_snoc [of m] show_nat_snoc [of n] by simp
  then have d: "digit_char (m mod 10) = digit_char (n mod 10)"
    and f: "(if m < 10 then [] else show_nat (m div 10)) =
      (if n < 10 then [] else show_nat (n div 10))"
    by simp_all
  from d have md: "m mod 10 = n mod 10"
    by (intro digit_char_inj) simp_all
  show ?case
  proof (cases "m < 10")
    case True
    with f show_nat_nonempty [of "n div 10"] have "n < 10"
      by (auto split: if_splits)
    with True md show ?thesis by simp
  next
    case False
    with f show_nat_nonempty [of "m div 10"] have n: "\<not> n < 10"
      by (auto split: if_splits)
    with False f have "show_nat (m div 10) = show_nat (n div 10)" by simp
    moreover from False have "m div 10 < m" by simp
    ultimately have "m div 10 = n div 10" by (rule less.IH [rotated])
    with md show ?thesis
      by (metis div_mult_mod_eq)
  qed
qed













end
